theory Spec2Isabelle
  imports Complex_Main "HOL-Library.Sublist" "HOL-Library.AList" "HOL-Library.Multiset"
begin

section \<open>Python text primitives used by the service\<close>

text \<open>
  Strings are lists of characters, a character being a code point below 256. The
  primitives below are the Python built-ins the service calls on such text:
  \<^verbatim>\<open>str.split(sep)\<close> with a one-character separator, \<^verbatim>\<open>str.strip()\<close>,
  \<^verbatim>\<open>str.lower()\<close>, the substring test \<^verbatim>\<open>a in b\<close>, \<^verbatim>\<open>str(n)\<close> and \<^verbatim>\<open>int(s)\<close>.
\<close>

fun split_on :: "char \<Rightarrow> string \<Rightarrow> string list" where
  "split_on sep [] = [[]]"
| "split_on sep (c # cs) =
     (if c = sep then [] # split_on sep cs
      else (case split_on sep cs of
              [] \<Rightarrow> [[c]]
            | p # ps \<Rightarrow> (c # p) # ps))"

text \<open>
  The characters for which \<^verbatim>\<open>str.isspace()\<close> holds: these are what \<^verbatim>\<open>strip()\<close> and
  \<^verbatim>\<open>int()\<close> drop at both ends.
\<close>

definition is_space :: "char \<Rightarrow> bool" where
  "is_space c = (c \<in> set [CHR '' '', CHR 0x09, CHR 0x0A, CHR 0x0B, CHR 0x0C, CHR 0x0D,
                            CHR 0x1C, CHR 0x1D, CHR 0x1E, CHR 0x1F, CHR 0x85, CHR 0xA0])"

definition strip :: "string \<Rightarrow> string" where
  "strip s = rev (dropWhile is_space (rev (dropWhile is_space s)))"

text \<open>
  \<^verbatim>\<open>str.lower()\<close> changes the 26 ASCII capitals and the 30 capitals between
  \<^verbatim>\<open>0xC0\<close> and \<^verbatim>\<open>0xDE\<close>, and nothing else below 256.
\<close>

definition upper_letters :: "char list" where
  "upper_letters =
     ''ABCDEFGHIJKLMNOPQRSTUVWXYZ'' @
       [
          CHR 0xC0, CHR 0xC1, CHR 0xC2, CHR 0xC3, CHR 0xC4, CHR 0xC5, CHR 0xC6, CHR 0xC7,
          CHR 0xC8, CHR 0xC9, CHR 0xCA, CHR 0xCB, CHR 0xCC, CHR 0xCD, CHR 0xCE, CHR 0xCF,
          CHR 0xD0, CHR 0xD1, CHR 0xD2, CHR 0xD3, CHR 0xD4, CHR 0xD5, CHR 0xD6, CHR 0xD8,
          CHR 0xD9, CHR 0xDA, CHR 0xDB, CHR 0xDC, CHR 0xDD, CHR 0xDE]"

definition lower_letters :: "char list" where
  "lower_letters =
     ''abcdefghijklmnopqrstuvwxyz'' @
       [
          CHR 0xE0, CHR 0xE1, CHR 0xE2, CHR 0xE3, CHR 0xE4, CHR 0xE5, CHR 0xE6, CHR 0xE7,
          CHR 0xE8, CHR 0xE9, CHR 0xEA, CHR 0xEB, CHR 0xEC, CHR 0xED, CHR 0xEE, CHR 0xEF,
          CHR 0xF0, CHR 0xF1, CHR 0xF2, CHR 0xF3, CHR 0xF4, CHR 0xF5, CHR 0xF6, CHR 0xF8,
          CHR 0xF9, CHR 0xFA, CHR 0xFB, CHR 0xFC, CHR 0xFD, CHR 0xFE]"

definition char_lower :: "char \<Rightarrow> char" where
  "char_lower c =
     (case map_of (zip upper_letters lower_letters) c of
        None \<Rightarrow> c
      | Some d \<Rightarrow> d)"

definition lower :: "string \<Rightarrow> string" where
  "lower s = map char_lower s"

text \<open>\<^verbatim>\<open>a in b\<close> on strings: \<open>a\<close> occurs in \<open>b\<close> as a contiguous substring.\<close>

definition py_in :: "string \<Rightarrow> string \<Rightarrow> bool" where
  "py_in a b = sublist a b"

definition digit_char :: "nat \<Rightarrow> char" where
  "digit_char d = ''0123456789'' ! d"

fun str_nat :: "nat \<Rightarrow> string" where
  "str_nat n = (if n < 10 then [digit_char n] else str_nat (n div 10) @ [digit_char (n mod 10)])"

declare str_nat.simps [simp del]

text \<open>
  \<^verbatim>\<open>str(n)\<close> for the integers the service prints, clock readings and token budgets,
  which stay far below the digit limit of the integer conversions.
\<close>

definition str_int :: "int \<Rightarrow> string" where
  "str_int i = (if i < 0 then CHR ''-'' # str_nat (nat (- i)) else str_nat (nat i))"

definition digit_val :: "char \<Rightarrow> nat option" where
  "digit_val c = map_of (zip ''0123456789'' [0, 1, 2, 3, 4, 5, 6, 7, 8, 9]) c"

text \<open>
  \<^verbatim>\<open>int(s)\<close>: surrounding blanks are ignored, one sign is allowed, then decimal digits
  in which single underscores may separate digits. The blanks \<^verbatim>\<open>int\<close> ignores are those
  of \<^verbatim>\<open>strip\<close> without the four separators \<^verbatim>\<open>0x1C\<close> to \<^verbatim>\<open>0x1F\<close>. A text of more
  than \<^verbatim>\<open>sys.get_int_max_str_digits()\<close> digits, 4300 unless configured otherwise, is
  refused. \<open>None\<close> is the \<^verbatim>\<open>ValueError\<close>. \<open>digits_from\<close> reads the text after a
  digit has been seen.
\<close>

definition is_int_space :: "char \<Rightarrow> bool" where
  "is_int_space c = (c \<in> set [CHR '' '', CHR 0x09, CHR 0x0A, CHR 0x0B, CHR 0x0C, CHR 0x0D,
                                CHR 0x85, CHR 0xA0])"

definition int_strip :: "string \<Rightarrow> string" where
  "int_strip s = rev (dropWhile is_int_space (rev (dropWhile is_int_space s)))"

definition int_max_str_digits :: nat where
  "int_max_str_digits = 4300"

definition is_digit :: "char \<Rightarrow> bool" where
  "is_digit c = (digit_val c \<noteq> None)"

fun digits_from :: "string \<Rightarrow> nat \<Rightarrow> nat option" where
  "digits_from [] acc = Some acc"
| "digits_from (c # cs) acc =
     (case digit_val c of
        Some d \<Rightarrow> digits_from cs (10 * acc + d)
      | None \<Rightarrow>
          (if c = CHR ''_'' then
             (case cs of
                [] \<Rightarrow> None
              | c' # cs' \<Rightarrow>
                  (case digit_val c' of
                     None \<Rightarrow> None
                   | Some d \<Rightarrow> digits_from cs' (10 * acc + d)))
           else None))"

definition parse_nat :: "string \<Rightarrow> nat option" where
  "parse_nat s =
     (case s of
        [] \<Rightarrow> None
      | c # cs \<Rightarrow> (case digit_val c of None \<Rightarrow> None | Some d \<Rightarrow> digits_from cs d))"

definition py_int :: "string \<Rightarrow> int option" where
  "py_int s =
     (case int_strip s of
        [] \<Rightarrow> None
      | c # cs \<Rightarrow>
          (let body = (if c = CHR ''-'' \<or> c = CHR ''+'' then cs else c # cs) in
           if length (filter is_digit body) > int_max_str_digits then None
           else if c = CHR ''-'' then map_option (\<lambda>n. - int n) (parse_nat cs)
           else if c = CHR ''+'' then map_option int (parse_nat cs)
           else map_option int (parse_nat (c # cs))))"

section \<open>Configuration (app/core/config.py)\<close>

text \<open>
  The fields of \<^verbatim>\<open>Settings\<close> that the functions below or the properties about them
  mention. They are read from the environment, so they are values of a record rather than
  constants; \<open>default_settings\<close> holds the defaults written in the class.
\<close>

record Settings =
  SECRET_KEY :: string
  CACHE_TTL :: int
  CACHE_MAX_SIZE :: int
  SUPPORTED_LANGUAGES :: "string list"

definition default_settings :: Settings where
  "default_settings =
     \<lparr> SECRET_KEY = ''your-secret-key-change-in-production'',
       CACHE_TTL = 3600,
       CACHE_MAX_SIZE = 1000,
       SUPPORTED_LANGUAGES =
         [''python'', ''javascript'', ''typescript'', ''java'', ''cpp'', ''csharp'', ''go'', ''rust''] \<rparr>"

text \<open>
  Library functions whose results the code only stores and compares: the MD5 and
  HMAC-SHA256 hex digests of \<^verbatim>\<open>hashlib\<close> and \<^verbatim>\<open>hmac\<close>, and the text Python prints
  for a float inside an f-string.
\<close>

record library =
  md5_hexdigest :: "string \<Rightarrow> string"
  hmac_sha256_hexdigest :: "string \<Rightarrow> string \<Rightarrow> string"
  float_str :: "real \<Rightarrow> string"

section \<open>The completion service (app/services/ai_code_completion.py)\<close>

record CodeCompletionRequest =
  code :: string
  language :: string
  req_context :: "string option"
  max_tokens :: int
  temperature :: real
  user_id :: "string option"

record CodeCompletionResponse =
  suggestions :: "string list"
  confidence_scores :: "real list"
  reasoning :: string
  model_used :: string
  processing_time :: real

text \<open>
  The state of \<^verbatim>\<open>AICodeCompletionService\<close>: whether \<^verbatim>\<open>openai_client\<close> is set, the
  languages that are keys of \<^verbatim>\<open>custom_models\<close>, and \<^verbatim>\<open>cache\<close>, a dict, kept as an
  association list in insertion order as Python keeps it.
\<close>

record service =
  openai_client :: bool
  custom_models :: "string list"
  cache :: "(string \<times> CodeCompletionResponse) list"

text \<open>
  What the outside world answers during one call of \<^verbatim>\<open>get_completion\<close>: the two
  readings of \<^verbatim>\<open>time.time()\<close>, the message contents of the choices the remote API
  returns, and the decoded new tokens of the sequences the local model generates. \<open>None\<close>
  is an exception raised inside the provider's \<^verbatim>\<open>try\<close> block.
\<close>

record env =
  t_start :: real
  t_end :: real
  openai_choices :: "string list option"
  custom_outputs :: "string list option"

datatype provider = OpenAI | Custom | RuleBased

record outcome =
  response :: CodeCompletionResponse
  service_after :: service
  invoked :: "provider list"

definition get_openai_completion :: "env \<Rightarrow> string list" where
  "get_openai_completion e =
     (case openai_choices e of
        None \<Rightarrow> []
      | Some choices \<Rightarrow> filter (\<lambda>suggestion. suggestion \<noteq> []) (map strip choices))"

definition get_custom_model_completion :: "service \<Rightarrow> env \<Rightarrow> CodeCompletionRequest \<Rightarrow> string list" where
  "get_custom_model_completion svc e request =
     (if language request \<notin> set (custom_models svc) then []
      else (case custom_outputs e of
              None \<Rightarrow> []
            | Some outputs \<Rightarrow> map strip (filter (\<lambda>suggestion. strip suggestion \<noteq> []) outputs)))"

definition language_patterns :: "(string \<times> string list) list" where
  "language_patterns =
     [
      (''python'',
        [''def '', ''class '', ''import '', ''from '', ''if __name__ == '__main__':'',
         ''try:'', ''except '', ''finally:'', ''with '', ''async def '', ''await '',
         ''return '', ''yield '', ''raise '', ''assert '', ''print('', ''len('', ''str('',
         ''int('', ''list('', ''dict('', ''set('', ''tuple('']),
      (''javascript'',
        [''function '', ''const '', ''let '', ''var '', ''if ('', ''for ('', ''while ('',
         ''try {'', ''catch ('', ''finally {'', ''async function '', ''await '',
         ''return '', ''throw '', ''console.log('', ''console.error('', ''console.warn('',
         ''Array('', ''Object('', ''String('', ''Number('', ''Boolean('', ''Date('',
         ''Math.'', ''JSON.'']),
      (''typescript'',
        [''function '', ''const '', ''let '', ''var '', ''interface '', ''type '',
         ''enum '', ''class '', ''async function '', ''await '', ''return '', ''throw '',
         ''console.log('', ''Array<'', ''Promise<'', ''Map<'', ''Set<'', ''Record<'',
         ''Partial<'', ''Required<'', ''Pick<'', ''Omit<'']),
      (''java'',
        [''public class '', ''public static void main('', ''public void '', ''private '',
         ''protected '', ''static '', ''final '', ''abstract '', ''interface '', ''enum '',
         ''try {'', ''catch ('', ''finally {'', ''if ('', ''for ('', ''while ('',
         ''return '', ''throw '', ''System.out.println('', ''System.out.print('', ''new '',
         ''super('', ''this.''])
     ]"

definition get_fallback_suggestions :: "CodeCompletionRequest \<Rightarrow> string list" where
  "get_fallback_suggestions request =
     (let patterns = (case map_of language_patterns (language request) of
                        None \<Rightarrow> []
                      | Some ps \<Rightarrow> ps);
          lines = split_on CHR ''\<newline>'' (code request);
          last_line = (if lines = [] then [] else last lines);
          found = filter (\<lambda>pattern. \<not> py_in (lower pattern) (lower last_line)) patterns
      in take 5 found)"

definition generate_reasoning :: "CodeCompletionRequest \<Rightarrow> string list \<Rightarrow> string" where
  "generate_reasoning request suggs =
     (if suggs = [] then ''No suggestions available''
      else ''Generated '' @ str_nat (length suggs) @ '' suggestions for '' @ language request
           @ '' code based on ''
           @ (case req_context request of
                None \<Rightarrow> []
              | Some c \<Rightarrow> (if c = [] then [] else ''context '' @ [CHR 0x27] @ c @ [CHR 0x27] @ '' and ''))
           @ ''current code structure. Top suggestions focus on common patterns and best practices for ''
           @ language request @ ''.'')"

definition generate_cache_key :: "library \<Rightarrow> CodeCompletionRequest \<Rightarrow> string" where
  "generate_cache_key L request =
     (let content = code request @ '':'' @ language request @ '':'' @ str_int (max_tokens request)
                    @ '':'' @ float_str L (temperature request);
          content' = (case req_context request of
                        None \<Rightarrow> content
                      | Some c \<Rightarrow> (if c = [] then content else content @ '':'' @ c))
      in md5_hexdigest L content')"

definition get_completion :: "library \<Rightarrow> service \<Rightarrow> env \<Rightarrow> CodeCompletionRequest \<Rightarrow> outcome" where
  "get_completion L svc e request =
     (let cache_key = generate_cache_key L request in
      case map_of (cache svc) cache_key of
        Some cached_result \<Rightarrow> \<lparr> response = cached_result, service_after = svc, invoked = [] \<rparr>
      | None \<Rightarrow>
          (let openai_suggestions = (if openai_client svc then get_openai_completion e else []);
               has_custom = (language request \<in> set (custom_models svc));
               custom_suggestions = (if has_custom then get_custom_model_completion svc e request else []);
               suggs = openai_suggestions @ custom_suggestions;
               scores = replicate (length openai_suggestions) (9 / 10)
                        @ replicate (length custom_suggestions) (7 / 10);
               label = (if has_custom then ''custom'' else ''openai'');
               fallback_suggestions = (if suggs = [] then get_fallback_suggestions request else []);
               suggs' = suggs @ fallback_suggestions;
               scores' = scores @ replicate (length fallback_suggestions) (1 / 2);
               label' = (if suggs = [] then ''rule-based'' else label);
               resp = \<lparr> suggestions = take 5 suggs',
                        confidence_scores = take 5 scores',
                        reasoning = generate_reasoning request suggs',
                        model_used = label',
                        processing_time = t_end e - t_start e \<rparr>
           in \<lparr> response = resp,
                service_after = svc \<lparr> cache := AList.update cache_key resp (cache svc) \<rparr>,
                invoked = (if openai_client svc then [OpenAI] else [])
                          @ (if has_custom then [Custom] else [])
                          @ (if suggs = [] then [RuleBased] else []) \<rparr>))"

text \<open>
  \<^verbatim>\<open>get_completion\<close> is a coroutine. It runs without interruption from its start up to
  the request to the remote API inside \<^verbatim>\<open>_get_openai_completion\<close>, the one place where
  it waits, and again from the arrival of the answer to its return; nothing else in it
  gives control back to the event loop. \<open>lookup\<close> is the cache check of lines 97 to 101,
  \<open>resume\<close> is everything after a miss, run on the service object as it is when the
  computation stores its result.
\<close>

definition lookup :: "library \<Rightarrow> service \<Rightarrow> CodeCompletionRequest \<Rightarrow> CodeCompletionResponse option" where
  "lookup L svc request = map_of (cache svc) (generate_cache_key L request)"

definition resume :: "library \<Rightarrow> service \<Rightarrow> env \<Rightarrow> CodeCompletionRequest \<Rightarrow> outcome" where
  "resume L svc e request =
     (let cache_key = generate_cache_key L request;
          openai_suggestions = (if openai_client svc then get_openai_completion e else []);
          has_custom = (language request \<in> set (custom_models svc));
          custom_suggestions = (if has_custom then get_custom_model_completion svc e request else []);
          suggs = openai_suggestions @ custom_suggestions;
          scores = replicate (length openai_suggestions) (9 / 10)
                   @ replicate (length custom_suggestions) (7 / 10);
          label = (if has_custom then ''custom'' else ''openai'');
          fallback_suggestions = (if suggs = [] then get_fallback_suggestions request else []);
          suggs' = suggs @ fallback_suggestions;
          scores' = scores @ replicate (length fallback_suggestions) (1 / 2);
          label' = (if suggs = [] then ''rule-based'' else label);
          resp = \<lparr> suggestions = take 5 suggs',
                   confidence_scores = take 5 scores',
                   reasoning = generate_reasoning request suggs',
                   model_used = label',
                   processing_time = t_end e - t_start e \<rparr>
      in \<lparr> response = resp,
           service_after = svc \<lparr> cache := AList.update cache_key resp (cache svc) \<rparr>,
           invoked = (if openai_client svc then [OpenAI] else [])
                     @ (if has_custom then [Custom] else [])
                     @ (if suggs = [] then [RuleBased] else []) \<rparr>)"







section \<open>Access control (app/core/security.py)\<close>

datatype exn = ValueError string | TypeError string | HTTPException nat string

text \<open>The dict \<^verbatim>\<open>{"user_id": ..., "timestamp": ...}\<close> that verification returns.\<close>

record api_key_info =
  key_user_id :: string
  key_timestamp :: string

record SecurityManager =
  secret_key :: string

text \<open>
  \<open>now\<close> is the reading \<^verbatim>\<open>int(time.time())\<close> of the clock, in whole seconds.
\<close>

definition generate_api_key :: "library \<Rightarrow> SecurityManager \<Rightarrow> int \<Rightarrow> string \<Rightarrow> string" where
  "generate_api_key L self now uid =
     (let timestamp = str_int now;
          message = uid @ '':'' @ timestamp;
          signature = hmac_sha256_hexdigest L (secret_key self) message
      in uid @ ''.'' @ timestamp @ ''.'' @ signature)"

text \<open>
  \<^verbatim>\<open>hmac.compare_digest\<close> on two \<^verbatim>\<open>str\<close> values raises \<^verbatim>\<open>TypeError\<close> unless both
  are ASCII, and compares them otherwise.
\<close>

definition compare_digest :: "string \<Rightarrow> string \<Rightarrow> exn + bool" where
  "compare_digest a b =
     (if (\<forall>c \<in> set (a @ b). \<not> digit7 c) then Inr (a = b)
      else Inl (TypeError ''comparing strings with non-ASCII characters is not supported''))"

text \<open>The body of the \<^verbatim>\<open>try\<close> block of \<^verbatim>\<open>verify_api_key\<close>, with what it raises.\<close>

definition verify_api_key_try ::
  "library \<Rightarrow> SecurityManager \<Rightarrow> int \<Rightarrow> string \<Rightarrow> exn + api_key_info" where
  "verify_api_key_try L self now api_key =
     (let parts = split_on CHR ''.'' api_key in
      if length parts \<noteq> 3 then Inl (ValueError ''Invalid API key format'')
      else
        (let uid = parts ! 0; timestamp = parts ! 1; signature = parts ! 2;
             message = uid @ '':'' @ timestamp;
             expected_signature = hmac_sha256_hexdigest L (secret_key self) message
         in case compare_digest signature expected_signature of
              Inl e \<Rightarrow> Inl e
            | Inr same \<Rightarrow>
                (if \<not> same then Inl (ValueError ''Invalid signature'')
                 else (case py_int timestamp of
                         None \<Rightarrow> Inl (ValueError ''invalid literal for int() with base 10'')
                       | Some t \<Rightarrow>
                           (if now - t > 86400 then Inl (ValueError ''API key expired'')
                            else Inr \<lparr> key_user_id = uid, key_timestamp = timestamp \<rparr>)))))"

text \<open>
  \<^verbatim>\<open>verify_api_key\<close> itself: every exception of the body is logged and replaced by the
  same \<^verbatim>\<open>HTTPException(401, "Invalid API key")\<close>.
\<close>

definition verify_api_key ::
  "library \<Rightarrow> SecurityManager \<Rightarrow> int \<Rightarrow> string \<Rightarrow> exn + api_key_info" where
  "verify_api_key L self now api_key =
     (case verify_api_key_try L self now api_key of
        Inl e \<Rightarrow> Inl (HTTPException 401 ''Invalid API key'')
      | Inr info \<Rightarrow> Inr info)"

text \<open>
  \<^verbatim>\<open>RateLimiter.requests\<close> maps a key to the times recorded for it. \<open>now\<close> is the
  reading of \<^verbatim>\<open>time.time()\<close>. The result is the returned flag and the updated dict.
\<close>

type_synonym rate_limiter = "string \<rightharpoonup> real list"

definition is_allowed ::
  "rate_limiter \<Rightarrow> real \<Rightarrow> string \<Rightarrow> int \<Rightarrow> int \<Rightarrow> bool \<times> rate_limiter" where
  "is_allowed requests now key limit window =
     (let recorded = (case requests key of None \<Rightarrow> [] | Some ts \<Rightarrow> ts);
          kept = filter (\<lambda>req_time. now - req_time < real_of_int window) recorded
      in if int (length kept) \<ge> limit then (False, requests(key \<mapsto> kept))
         else (True, requests(key \<mapsto> kept @ [now])))"

section \<open>Reference definitions and sample inputs\<close>

text \<open>
  The label as the specification words it: the first provider, in the order remote, local,
  rule-based, that yielded a candidate.
\<close>

definition spec_model_used :: "string list \<Rightarrow> string list \<Rightarrow> string" where
  "spec_model_used remote local =
     (if remote \<noteq> [] then ''openai'' else if local \<noteq> [] then ''custom'' else ''rule-based'')"

text \<open>
  The admission check as the specification words it: times older than the window are
  pruned, the call is admitted and recorded when fewer than \<open>limit\<close> remain.
\<close>

definition spec_is_allowed ::
  "rate_limiter \<Rightarrow> real \<Rightarrow> string \<Rightarrow> int \<Rightarrow> int \<Rightarrow> bool \<times> rate_limiter" where
  "spec_is_allowed requests now key limit window =
     (let recorded = (case requests key of None \<Rightarrow> [] | Some ts \<Rightarrow> ts);
          kept = filter (\<lambda>req_time. \<not> now - req_time > real_of_int window) recorded
      in if int (length kept) < limit then (True, requests(key \<mapsto> kept @ [now]))
         else (False, requests(key \<mapsto> kept)))"

text \<open>A sequence of calls of \<^verbatim>\<open>get_completion\<close> on one service object.\<close>

fun serve_all :: "library \<Rightarrow> service \<Rightarrow> (env \<times> CodeCompletionRequest) list \<Rightarrow> service" where
  "serve_all L svc [] = svc"
| "serve_all L svc ((e, request) # rest) =
     serve_all L (service_after (get_completion L svc e request)) rest"

text \<open>
  Sample inputs for the concrete evaluations below. \<open>sample_library\<close> gives the digests
  that \<^verbatim>\<open>hashlib.md5\<close> and \<^verbatim>\<open>hmac\<close> with SHA-256 compute on the strings that occur
  there, and \<^verbatim>\<open>"0.7"\<close> for the float \<open>0.7\<close>; on other arguments it returns a fixed
  digest, and no concrete evaluation below applies it to one.
\<close>

definition long_timestamp :: string where
  "long_timestamp = CHR ''1'' # replicate 4300 (CHR ''0'')"

definition sample_library :: library where
  "sample_library =
     \<lparr> md5_hexdigest =
         (\<lambda>s. case map_of
                    [(''x = :python:100:0.7'', ''7d0e8510a845d1323e21f8eba158edb5''),
                     (''def fib(n):\<newline>    :python:100:0.7'', ''a601f15fb67bd5622fcafdc79fcf0cd5''),
                     (''a:go:100:0.7'', ''9a39115c7b4cc179c201e377c764fc5a''),
                     (''b:go:100:0.7'', ''2b35da9bf74f497300a4cfaae0f2ad83''),
                     (''c:go:100:0.7'', ''af554ce4f4ada25ae4d771b30f1be123'')] s of
                None \<Rightarrow> ''d41d8cd98f00b204e9800998ecf8427e''
              | Some d \<Rightarrow> d),
       hmac_sha256_hexdigest =
         (\<lambda>k m. if k = ''test-secret'' \<and> m = ''alice:4102444800''
                then ''fc53a05344db9c8f201dd8dea20baf8bbef5a44158076272134afc8cdd92ce86''
                else if k = ''test-secret'' \<and> m = ''alice:'' @ long_timestamp
                then ''60b36fb397dff5221af66163c3275572c45e06b0997fa1542eb001f44e114082''
                else ''acd4f9fcb6c83dfef8631d798754dc2ca6609fe9e7a723316c80602837567a93''),
       float_str = (\<lambda>x. if x = 7 / 10 then ''0.7'' else ''0.0'') \<rparr>"

definition sample_request :: "string \<Rightarrow> string \<Rightarrow> string option \<Rightarrow> CodeCompletionRequest" where
  "sample_request c l u =
     \<lparr> code = c, language = l, req_context = None, max_tokens = 100, temperature = 7 / 10,
       user_id = u \<rparr>"

definition sample_env :: "real \<Rightarrow> string list option \<Rightarrow> string list option \<Rightarrow> env" where
  "sample_env t remote local =
     \<lparr> t_start = t, t_end = t + 1, openai_choices = remote, custom_outputs = local \<rparr>"

definition sample_service :: "bool \<Rightarrow> string list \<Rightarrow> service" where
  "sample_service remote langs = \<lparr> openai_client = remote, custom_models = langs, cache = [] \<rparr>"

text \<open>A sequence of calls of \<^verbatim>\<open>is_allowed\<close> on one key, at the given clock readings.\<close>

fun allowed_seq :: "rate_limiter \<Rightarrow> string \<Rightarrow> int \<Rightarrow> int \<Rightarrow> real list \<Rightarrow> bool list" where
  "allowed_seq requests key limit window [] = []"
| "allowed_seq requests key limit window (now # rest) =
     (case is_allowed requests now key limit window of
        (ok, requests') \<Rightarrow> ok # allowed_seq requests' key limit window rest)"

section \<open>Evaluation of the sample inputs\<close>

lemma str_int_100: "str_int 100 = ''100''"
  by (simp add: str_int_def str_nat.simps digit_char_def)

lemma sample_key_x:
  "generate_cache_key sample_library (sample_request ''x = '' ''python'' u)
     = ''7d0e8510a845d1323e21f8eba158edb5''"
  by (simp add: generate_cache_key_def sample_library_def sample_request_def str_int_100)

lemma sample_key_a:
  "generate_cache_key sample_library (sample_request ''a'' ''go'' u)
     = ''9a39115c7b4cc179c201e377c764fc5a''"
  by (simp add: generate_cache_key_def sample_library_def sample_request_def str_int_100)

lemma sample_key_b:
  "generate_cache_key sample_library (sample_request ''b'' ''go'' u)
     = ''2b35da9bf74f497300a4cfaae0f2ad83''"
  by (simp add: generate_cache_key_def sample_library_def sample_request_def str_int_100)

lemma sample_key_c:
  "generate_cache_key sample_library (sample_request ''c'' ''go'' u)
     = ''af554ce4f4ada25ae4d771b30f1be123''"
  by (simp add: generate_cache_key_def sample_library_def sample_request_def str_int_100)

section \<open>The response cache\<close>

lemma update_absent: "map_of al k = None \<Longrightarrow> AList.update k v al = al @ [(k, v)]"
  by (induction al) (auto split: if_splits)

lemma get_completion_hit:
  "map_of (cache svc) (generate_cache_key L request) = Some c \<Longrightarrow>
   get_completion L svc e request = \<lparr> response = c, service_after = svc, invoked = [] \<rparr>"
  by (simp add: get_completion_def)

lemma get_completion_stored:
  "map_of (cache (service_after (get_completion L svc e request))) (generate_cache_key L request)
     = Some (response (get_completion L svc e request))"
  by (cases "map_of (cache svc) (generate_cache_key L request)")
     (simp_all add: get_completion_def Let_def update_conv')

lemma get_completion_miss_cache:
  "map_of (cache svc) (generate_cache_key L request) = None \<Longrightarrow>
   cache (service_after (get_completion L svc e request))
     = cache svc @ [(generate_cache_key L request, response (get_completion L svc e request))]"
  by (simp add: get_completion_def Let_def update_absent)

section \<open>The label of the dominant provider\<close>

text \<open>
  Claim C1, as the code has it. On a cache miss \<^verbatim>\<open>model_used\<close> is \<^verbatim>\<open>"rule-based"\<close> when
  the remote and the local provider together yielded no candidate; otherwise it is
  \<^verbatim>\<open>"custom"\<close> whenever a local model is loaded for the request's language, whether or not
  the remote provider yielded candidates and whether or not the local model yielded any; it
  is \<^verbatim>\<open>"openai"\<close> only when no local model is loaded for the language.
\<close>

theorem model_used_label:
  assumes "map_of (cache svc) (generate_cache_key L request) = None"
  shows "model_used (response (get_completion L svc e request)) =
     (if (if openai_client svc then get_openai_completion e else []) = []
          \<and> get_custom_model_completion svc e request = [] then ''rule-based''
      else if language request \<in> set (custom_models svc) then ''custom''
      else ''openai'')"
  using assms by (simp add: get_completion_def Let_def get_custom_model_completion_def)

theorem model_used_label_witness:
  "map_of (cache (sample_service True [])) 
      (generate_cache_key sample_library (sample_request ''x = '' ''python'' None)) = None
   \<and> model_used (response (get_completion sample_library (sample_service True [])
         (sample_env 0 (Some [''return x'']) None) (sample_request ''x = '' ''python'' None)))
       = ''openai''"
  using model_used_label [of "sample_service True []" sample_library
      "sample_request ''x = '' ''python'' None" "sample_env 0 (Some [''return x'']) None"]
  by (simp add: sample_service_def sample_env_def get_openai_completion_def strip_def
      is_space_def get_custom_model_completion_def sample_request_def)

text \<open>
  The remote provider yields a candidate and a local model for the language runs as well:
  the first provider that yielded is the remote one, the label the code returns is
  \<^verbatim>\<open>"custom"\<close>.
\<close>

theorem model_used_first_provider_counterexample:
  "get_openai_completion (sample_env 0 (Some [''return x'']) (Some [''pass''])) = [''return x'']
   \<and> spec_model_used
        (get_openai_completion (sample_env 0 (Some [''return x'']) (Some [''pass''])))
        (get_custom_model_completion (sample_service True [''python''])
           (sample_env 0 (Some [''return x'']) (Some [''pass'']))
           (sample_request ''x = '' ''python'' None)) = ''openai''
   \<and> model_used (response (get_completion sample_library (sample_service True [''python''])
         (sample_env 0 (Some [''return x'']) (Some [''pass'']))
         (sample_request ''x = '' ''python'' None))) = ''custom''"
  by (simp add: get_completion_def Let_def get_custom_model_completion_def
      get_openai_completion_def spec_model_used_def strip_def is_space_def sample_request_def
      sample_env_def sample_service_def)

section \<open>Expiry and eviction\<close>

lemma get_completion_keeps_entry:
  assumes "map_of (cache svc) k = Some v"
  shows "map_of (cache (service_after (get_completion L svc e request))) k = Some v"
proof (cases "map_of (cache svc) (generate_cache_key L request)")
  case None
  then have "generate_cache_key L request \<noteq> k"
    using assms by auto
  then show ?thesis
    using None assms by (simp add: get_completion_def Let_def update_conv')
next
  case (Some c)
  then show ?thesis
    using assms by (simp add: get_completion_hit)
qed

lemma serve_all_keeps_entry:
  "map_of (cache svc) k = Some v \<Longrightarrow> map_of (cache (serve_all L svc calls)) k = Some v"
proof (induction calls arbitrary: svc)
  case Nil
  then show ?case by simp
next
  case (Cons call calls)
  obtain e r where call: "call = (e, r)" by (cases call)
  have "map_of (cache (service_after (get_completion L svc e r))) k = Some v"
    using Cons.prems by (rule get_completion_keeps_entry)
  then have "map_of (cache (serve_all L (service_after (get_completion L svc e r)) calls)) k = Some v"
    by (rule Cons.IH)
  then show ?case by (simp add: call)
qed

text \<open>
  Claim C2, as the code has it. The cache keeps no creation time and nothing expires: once a
  call has been served, every later call whose fingerprint is the same returns the stored
  result, leaves the service unchanged and invokes no provider, whatever calls were served
  in between, whatever the clock reads and whatever the providers would answer.
\<close>

theorem cached_result_never_expires:
  assumes "generate_cache_key L request' = generate_cache_key L request"
  shows "get_completion L (serve_all L (service_after (get_completion L svc e request)) calls)
           e' request' =
           \<lparr> response = response (get_completion L svc e request),
             service_after = serve_all L (service_after (get_completion L svc e request)) calls,
             invoked = [] \<rparr>"
proof -
  have "map_of (cache (serve_all L (service_after (get_completion L svc e request)) calls))
          (generate_cache_key L request) = Some (response (get_completion L svc e request))"
    using get_completion_stored by (rule serve_all_keeps_entry)
  then show ?thesis
    using assms by (simp add: get_completion_hit)
qed

theorem cached_result_never_expires_witness:
  "generate_cache_key sample_library (sample_request ''x = '' ''python'' (Some ''bob''))
     = generate_cache_key sample_library (sample_request ''x = '' ''python'' (Some ''alice''))
   \<and> invoked (get_completion sample_library
        (serve_all sample_library
           (service_after (get_completion sample_library (sample_service True [])
              (sample_env 0 (Some [''return x'']) None)
              (sample_request ''x = '' ''python'' (Some ''alice''))))
           [(sample_env 10 (Some [''return a'']) None, sample_request ''a'' ''go'' None),
            (sample_env 20 (Some [''return b'']) None, sample_request ''b'' ''go'' None)])
        (sample_env 7200 (Some [''return y'']) None)
        (sample_request ''x = '' ''python'' (Some ''bob''))) = []
   \<and> response (get_completion sample_library
        (serve_all sample_library
           (service_after (get_completion sample_library (sample_service True [])
              (sample_env 0 (Some [''return x'']) None)
              (sample_request ''x = '' ''python'' (Some ''alice''))))
           [(sample_env 10 (Some [''return a'']) None, sample_request ''a'' ''go'' None),
            (sample_env 20 (Some [''return b'']) None, sample_request ''b'' ''go'' None)])
        (sample_env 7200 (Some [''return y'']) None)
        (sample_request ''x = '' ''python'' (Some ''bob'')))
      = response (get_completion sample_library (sample_service True [])
              (sample_env 0 (Some [''return x'']) None)
              (sample_request ''x = '' ''python'' (Some ''alice'')))"
proof -
  have same: "generate_cache_key sample_library (sample_request ''x = '' ''python'' (Some ''bob''))
     = generate_cache_key sample_library (sample_request ''x = '' ''python'' (Some ''alice''))"
    by (simp add: sample_key_x)
  show ?thesis
    using same cached_result_never_expires [OF same, of "sample_service True []"
        "sample_env 0 (Some [''return x'']) None"
        "[(sample_env 10 (Some [''return a'']) None, sample_request ''a'' ''go'' None),
          (sample_env 20 (Some [''return b'']) None, sample_request ''b'' ''go'' None)]"
        "sample_env 7200 (Some [''return y'']) None"]
    by simp
qed

text \<open>
  A second call 3601 seconds after the first one ended, with the default
  \<^verbatim>\<open>CACHE_TTL\<close> of 3600: no provider runs and the stored suggestion comes back, although
  the remote provider would now answer differently.
\<close>

theorem cache_ttl_counterexample:
  "t_start (sample_env 3602 (Some [''return y'']) None)
     - t_end (sample_env 0 (Some [''return x'']) None) > real_of_int (CACHE_TTL default_settings)
   \<and> invoked (get_completion sample_library
        (service_after (get_completion sample_library (sample_service True [])
           (sample_env 0 (Some [''return x'']) None)
           (sample_request ''x = '' ''python'' None)))
        (sample_env 3602 (Some [''return y'']) None)
        (sample_request ''x = '' ''python'' None)) = []
   \<and> suggestions (response (get_completion sample_library
        (service_after (get_completion sample_library (sample_service True [])
           (sample_env 0 (Some [''return x'']) None)
           (sample_request ''x = '' ''python'' None)))
        (sample_env 3602 (Some [''return y'']) None)
        (sample_request ''x = '' ''python'' None))) = [''return x'']"
  by (simp add: get_completion_def Let_def sample_key_x sample_service_def sample_env_def
      default_settings_def get_openai_completion_def strip_def is_space_def
      get_custom_model_completion_def)

text \<open>
  Claim C3, as the code has it. The cache has no size bound: a call that misses appends its
  entry and evicts nothing, so after any number of calls with distinct new fingerprints
  (\<^verbatim>\<open>CACHE_MAX_SIZE + 1\<close> of them in particular) the cache holds every earlier entry,
  unchanged and in place, followed by one entry per call in call order.
\<close>

theorem cache_grows_without_eviction:
  assumes "distinct (map (\<lambda>(e, r). generate_cache_key L r) calls)"
    and "\<forall>(e, r) \<in> set calls. map_of (cache svc) (generate_cache_key L r) = None"
  shows "\<exists>new. cache (serve_all L svc calls) = cache svc @ new
       \<and> map fst new = map (\<lambda>(e, r). generate_cache_key L r) calls"
  using assms
proof (induction calls arbitrary: svc)
  case Nil
  then show ?case by simp
next
  case (Cons call calls)
  obtain e r where call: "call = (e, r)" by (cases call)
  let ?svc' = "service_after (get_completion L svc e r)"
  have miss: "map_of (cache svc) (generate_cache_key L r) = None"
    using Cons.prems(2) call by simp
  have step: "cache ?svc' = cache svc @ [(generate_cache_key L r, response (get_completion L svc e r))]"
    using miss by (rule get_completion_miss_cache)
  have d: "distinct (map (\<lambda>(e, r). generate_cache_key L r) calls)"
    using Cons.prems(1) by simp
  have fresh: "\<forall>(e', r') \<in> set calls. map_of (cache ?svc') (generate_cache_key L r') = None"
  proof (clarify)
    fix e' r' assume in_calls: "(e', r') \<in> set calls"
    have "generate_cache_key L r' \<noteq> generate_cache_key L r"
      using Cons.prems(1) call in_calls by force
    moreover have "map_of (cache svc) (generate_cache_key L r') = None"
      using Cons.prems(2) in_calls by auto
    ultimately show "map_of (cache ?svc') (generate_cache_key L r') = None"
      by (simp add: step)
  qed
  from Cons.IH [OF d fresh] obtain new where
    new: "cache (serve_all L ?svc' calls) = cache ?svc' @ new"
         "map fst new = map (\<lambda>(e, r). generate_cache_key L r) calls"
    by blast
  show ?case
    by (rule exI [of _ "(generate_cache_key L r, response (get_completion L svc e r)) # new"])
       (simp add: call new step)
qed

theorem cache_grows_without_eviction_witness:
  "distinct (map (\<lambda>(e, r). generate_cache_key sample_library r)
      [(sample_env 0 None None, sample_request ''a'' ''go'' None),
       (sample_env 1 None None, sample_request ''b'' ''go'' None),
       (sample_env 2 None None, sample_request ''c'' ''go'' None)])
   \<and> (\<exists>new. cache (serve_all sample_library (sample_service False [])
      [(sample_env 0 None None, sample_request ''a'' ''go'' None),
       (sample_env 1 None None, sample_request ''b'' ''go'' None),
       (sample_env 2 None None, sample_request ''c'' ''go'' None)]) = new
     \<and> map fst new = [''9a39115c7b4cc179c201e377c764fc5a'', ''2b35da9bf74f497300a4cfaae0f2ad83'',
          ''af554ce4f4ada25ae4d771b30f1be123''])"
  using cache_grows_without_eviction [of sample_library
      "[(sample_env 0 None None, sample_request ''a'' ''go'' None),
       (sample_env 1 None None, sample_request ''b'' ''go'' None),
       (sample_env 2 None None, sample_request ''c'' ''go'' None)]" "sample_service False []"]
  by (simp add: sample_key_a sample_key_b sample_key_c sample_service_def)

text \<open>
  With \<^verbatim>\<open>CACHE_MAX_SIZE\<close> configured as 2, three calls with distinct fingerprints leave
  three entries, the earliest among them.
\<close>

theorem cache_eviction_counterexample:
  "CACHE_MAX_SIZE (default_settings \<lparr> CACHE_MAX_SIZE := 2 \<rparr>) = 2
   \<and> map fst (cache (serve_all sample_library (sample_service False [])
      [(sample_env 0 None None, sample_request ''a'' ''go'' None),
       (sample_env 1 None None, sample_request ''b'' ''go'' None),
       (sample_env 2 None None, sample_request ''c'' ''go'' None)]))
     = [''9a39115c7b4cc179c201e377c764fc5a'', ''2b35da9bf74f497300a4cfaae0f2ad83'',
          ''af554ce4f4ada25ae4d771b30f1be123'']"
  by (simp add: get_completion_def Let_def sample_key_a sample_key_b sample_key_c
      sample_service_def)

section \<open>The rule-based fallback\<close>

lemma split_on_nonempty: "split_on sep s \<noteq> []"
  by (induction s) (auto split: list.splits)

lemma fallback_unfold:
  "get_fallback_suggestions request =
     take 5 (filter (\<lambda>pattern. \<not> py_in (lower pattern)
                (lower (last (split_on CHR ''\<newline>'' (code request)))))
             (case map_of language_patterns (language request) of None \<Rightarrow> [] | Some ps \<Rightarrow> ps))"
  by (simp add: get_fallback_suggestions_def Let_def split_on_nonempty)

lemma fallback_sound:
  assumes "s \<in> set (get_fallback_suggestions request)"
  shows "(\<exists>ps. map_of language_patterns (language request) = Some ps \<and> s \<in> set ps)
         \<and> \<not> py_in (lower s) (lower (last (split_on CHR ''\<newline>'' (code request))))"
proof -
  from assms have "s \<in> set (filter (\<lambda>pattern. \<not> py_in (lower pattern)
                (lower (last (split_on CHR ''\<newline>'' (code request)))))
             (case map_of language_patterns (language request) of None \<Rightarrow> [] | Some ps \<Rightarrow> ps))"
    unfolding fallback_unfold by (rule in_set_takeD)
  then show ?thesis by (cases "map_of language_patterns (language request)") auto
qed

lemma fallback_length: "length (get_fallback_suggestions request) \<le> 5"
  by (simp add: fallback_unfold)

lemma get_completion_fallback:
  assumes "map_of (cache svc) (generate_cache_key L request) = None"
    and "(if openai_client svc then get_openai_completion e else [])
           @ get_custom_model_completion svc e request = []"
  shows "response (get_completion L svc e request) =
           \<lparr> suggestions = get_fallback_suggestions request,
             confidence_scores = replicate (length (get_fallback_suggestions request)) (1 / 2),
             reasoning = generate_reasoning request (get_fallback_suggestions request),
             model_used = ''rule-based'',
             processing_time = t_end e - t_start e \<rparr>"
  using assms fallback_length [of request]
  by (simp add: get_completion_def Let_def get_custom_model_completion_def split: if_splits)

lemma get_completion_invoked:
  assumes "map_of (cache svc) (generate_cache_key L request) = None"
  shows "RuleBased \<in> set (invoked (get_completion L svc e request)) \<longleftrightarrow>
         (if openai_client svc then get_openai_completion e else [])
           @ get_custom_model_completion svc e request = []"
  using assms
  by (simp add: get_completion_def Let_def get_custom_model_completion_def)

lemma fallback_example:
  "get_fallback_suggestions (sample_request ''def fib(n):\<newline>    '' ''python'' None)
     = [''def '', ''class '', ''import '', ''from '', ''if __name__ == '__main__':'']"
  by (simp add: get_fallback_suggestions_def Let_def sample_request_def language_patterns_def
      lower_def char_lower_def upper_letters_def lower_letters_def py_in_def sublist_code(3))

text \<open>
  Claim C5. On a cache miss the rule-based provider is invoked if and only if the remote
  and the local provider together produced no candidate. When it is invoked, every
  suggestion of the response is an entry of the pattern table of the request's language
  and, lower-cased, does not occur in the lower-cased last line of the request's code;
  there are at most 5 suggestions, each with confidence 0.5, and \<^verbatim>\<open>model_used\<close> is
  \<^verbatim>\<open>"rule-based"\<close>.
\<close>

theorem rule_based_fallback:
  assumes "map_of (cache svc) (generate_cache_key L request) = None"
  shows "(RuleBased \<in> set (invoked (get_completion L svc e request)) \<longleftrightarrow>
            (if openai_client svc then get_openai_completion e else [])
              @ get_custom_model_completion svc e request = [])
       \<and> (RuleBased \<in> set (invoked (get_completion L svc e request)) \<longrightarrow>
            (\<forall>s \<in> set (suggestions (response (get_completion L svc e request))).
                (\<exists>ps. map_of language_patterns (language request) = Some ps \<and> s \<in> set ps)
                \<and> \<not> py_in (lower s) (lower (last (split_on CHR ''\<newline>'' (code request)))))
            \<and> length (suggestions (response (get_completion L svc e request))) \<le> 5
            \<and> confidence_scores (response (get_completion L svc e request))
                = replicate (length (suggestions (response (get_completion L svc e request)))) (1 / 2)
            \<and> model_used (response (get_completion L svc e request)) = ''rule-based'')"
proof (intro conjI impI)
  show "RuleBased \<in> set (invoked (get_completion L svc e request)) \<longleftrightarrow>
            (if openai_client svc then get_openai_completion e else [])
              @ get_custom_model_completion svc e request = []"
    using assms by (rule get_completion_invoked)
next
  assume "RuleBased \<in> set (invoked (get_completion L svc e request))"
  then have none: "(if openai_client svc then get_openai_completion e else [])
              @ get_custom_model_completion svc e request = []"
    using get_completion_invoked [OF assms] by simp
  note r = get_completion_fallback [OF assms none]
  show "\<forall>s \<in> set (suggestions (response (get_completion L svc e request))).
                (\<exists>ps. map_of language_patterns (language request) = Some ps \<and> s \<in> set ps)
                \<and> \<not> py_in (lower s) (lower (last (split_on CHR ''\<newline>'' (code request))))"
    using fallback_sound [of _ request] by (simp add: r)
  show "length (suggestions (response (get_completion L svc e request))) \<le> 5"
    by (simp add: r fallback_length)
  show "confidence_scores (response (get_completion L svc e request))
                = replicate (length (suggestions (response (get_completion L svc e request)))) (1 / 2)"
    by (simp add: r)
  show "model_used (response (get_completion L svc e request)) = ''rule-based''"
    by (simp add: r)
qed

theorem rule_based_fallback_witness:
  "map_of (cache (sample_service False []))
      (generate_cache_key sample_library
         (sample_request ''def fib(n):\<newline>    '' ''python'' None)) = None
   \<and> RuleBased \<in> set (invoked (get_completion sample_library (sample_service False [])
         (sample_env 0 None None)
         (sample_request ''def fib(n):\<newline>    '' ''python'' None)))
   \<and> suggestions (response (get_completion sample_library (sample_service False [])
         (sample_env 0 None None)
         (sample_request ''def fib(n):\<newline>    '' ''python'' None)))
       = [''def '', ''class '', ''import '', ''from '', ''if __name__ == '__main__':'']
   \<and> confidence_scores (response (get_completion sample_library (sample_service False [])
         (sample_env 0 None None)
         (sample_request ''def fib(n):\<newline>    '' ''python'' None)))
       = [1 / 2, 1 / 2, 1 / 2, 1 / 2, 1 / 2]
   \<and> model_used (response (get_completion sample_library (sample_service False [])
         (sample_env 0 None None)
         (sample_request ''def fib(n):\<newline>    '' ''python'' None)))
       = ''rule-based''"
proof -
  let ?svc = "sample_service False []"
  let ?rq = "sample_request ''def fib(n):\<newline>    '' ''python'' None"
  let ?o = "get_completion sample_library ?svc (sample_env 0 None None) ?rq"
  have miss: "map_of (cache ?svc) (generate_cache_key sample_library ?rq) = None"
    by (simp add: sample_service_def)
  have none: "(if openai_client ?svc then get_openai_completion (sample_env 0 None None) else [])
                @ get_custom_model_completion ?svc (sample_env 0 None None) ?rq = []"
    by (simp add: sample_service_def get_custom_model_completion_def)
  have sugg: "suggestions (response ?o)
       = [''def '', ''class '', ''import '', ''from '', ''if __name__ == '__main__':'']"
    by (simp add: get_completion_fallback [OF miss none] fallback_example)
  from rule_based_fallback [OF miss, of "sample_env 0 None None"] none
  have inv: "RuleBased \<in> set (invoked ?o)"
    and conf: "confidence_scores (response ?o) = replicate (length (suggestions (response ?o))) (1 / 2)"
    and lab: "model_used (response ?o) = ''rule-based''"
    by simp_all
  have conf': "confidence_scores (response ?o) = [1 / 2, 1 / 2, 1 / 2, 1 / 2, 1 / 2]"
    unfolding conf sugg by (simp add: numeral_eq_Suc)
  show ?thesis
    using miss inv sugg conf' lab by simp
qed

text \<open>
  Claim C9. For a request whose language is none of python, javascript, typescript and
  java (so also for the supported languages go, rust, cpp and csharp), served on a cache
  miss while neither the remote nor a local provider produces a candidate, the response
  has no suggestions, no confidence scores, \<^verbatim>\<open>model_used\<close> equal to \<^verbatim>\<open>"rule-based"\<close>
  and the reasoning \<^verbatim>\<open>"No suggestions available"\<close>.
\<close>

theorem unlisted_language_no_suggestions:
  assumes "map_of (cache svc) (generate_cache_key L request) = None"
    and "language request \<notin> {''python'', ''javascript'', ''typescript'', ''java''}"
    and "(if openai_client svc then get_openai_completion e else []) = []"
    and "get_custom_model_completion svc e request = []"
  shows "response (get_completion L svc e request) =
           \<lparr> suggestions = [], confidence_scores = [],
             reasoning = ''No suggestions available'', model_used = ''rule-based'',
             processing_time = t_end e - t_start e \<rparr>"
proof -
  have "map_of language_patterns (language request) = None"
    using assms(2) by (simp add: language_patterns_def)
  then have "get_fallback_suggestions request = []"
    by (simp add: fallback_unfold)
  then show ?thesis
    using get_completion_fallback [OF assms(1), of e] assms(3,4)
    by (simp add: generate_reasoning_def)
qed

theorem unlisted_language_no_suggestions_witness:
  "map_of (cache (sample_service True [''python'', ''java'']))
      (generate_cache_key sample_library (sample_request ''a'' ''go'' None)) = None
   \<and> ''go'' \<in> set (SUPPORTED_LANGUAGES default_settings)
   \<and> language (sample_request ''a'' ''go'' None) \<notin> {''python'', ''javascript'', ''typescript'', ''java''}
   \<and> response (get_completion sample_library (sample_service True [''python'', ''java''])
         (sample_env 5 None (Some [''x''])) (sample_request ''a'' ''go'' None))
      = \<lparr> suggestions = [], confidence_scores = [],
             reasoning = ''No suggestions available'', model_used = ''rule-based'',
             processing_time = 1 \<rparr>"
  using unlisted_language_no_suggestions [of "sample_service True [''python'', ''java'']"
      sample_library "sample_request ''a'' ''go'' None" "sample_env 5 None (Some [''x''])"]
  by (simp add: sample_service_def sample_request_def sample_env_def default_settings_def
      get_openai_completion_def get_custom_model_completion_def)

section \<open>The fingerprint\<close>

text \<open>
  Claim C7. The cache key depends on the code, the language, the token budget, the
  creativity parameter and the optional context only: two requests that agree on these
  have the same key, whoever the caller is. It is the MD5 hex digest of their
  concatenation, so it has the digest's fixed length of 32 characters.
\<close>

theorem cache_key_ignores_caller:
  assumes "code r1 = code r2" and "language r1 = language r2"
    and "max_tokens r1 = max_tokens r2" and "temperature r1 = temperature r2"
    and "req_context r1 = req_context r2"
  shows "generate_cache_key L r1 = generate_cache_key L r2
       \<and> ((\<forall>s. length (md5_hexdigest L s) = 32) \<longrightarrow> length (generate_cache_key L r1) = 32)"
  using assms by (simp add: generate_cache_key_def Let_def)

theorem cache_key_ignores_caller_witness:
  "user_id (sample_request ''x = '' ''python'' (Some ''alice''))
     \<noteq> user_id (sample_request ''x = '' ''python'' (Some ''bob''))
   \<and> (\<forall>s. length (md5_hexdigest sample_library s) = 32)
   \<and> generate_cache_key sample_library (sample_request ''x = '' ''python'' (Some ''alice''))
      = generate_cache_key sample_library (sample_request ''x = '' ''python'' (Some ''bob''))
   \<and> length (generate_cache_key sample_library (sample_request ''x = '' ''python'' (Some ''alice''))) = 32"
proof -
  let ?a = "sample_request ''x = '' ''python'' (Some ''alice'')"
  let ?b = "sample_request ''x = '' ''python'' (Some ''bob'')"
  have len: "\<forall>s. length (md5_hexdigest sample_library s) = 32"
    by (auto simp add: sample_library_def split: option.splits if_splits)
  have fields: "code ?a = code ?b" "language ?a = language ?b" "max_tokens ?a = max_tokens ?b"
    "temperature ?a = temperature ?b" "req_context ?a = req_context ?b"
    by (simp_all add: sample_request_def)
  have diff: "user_id ?a \<noteq> user_id ?b"
    by (simp add: sample_request_def)
  from cache_key_ignores_caller [OF fields, of sample_library] len
  have "generate_cache_key sample_library ?a = generate_cache_key sample_library ?b"
    and "length (generate_cache_key sample_library ?a) = 32"
    by blast+
  with diff len show ?thesis by blast
qed

section \<open>The rate limiter\<close>

lemma is_allowed_eq:
  "is_allowed requests now key limit window =
     (let kept = filter (\<lambda>t. now - t < real_of_int window)
                   (case requests key of None \<Rightarrow> [] | Some ts \<Rightarrow> ts)
      in (int (length kept) < limit,
          requests(key \<mapsto> (if int (length kept) < limit then kept @ [now] else kept))))"
  by (simp add: is_allowed_def Let_def)

lemma four_then_one:
  assumes "requests key = None" and "t1 \<le> t2" and "t2 \<le> t3" and "t3 \<le> t4"
    and "t4 - t1 < 60" and "t5 - t4 > 60"
  shows "allowed_seq requests key 3 60 [t1, t2, t3, t4, t5] = [True, True, True, False, True]"
proof -
  have in_window: "t2 - t1 < 60" "t3 - t1 < 60" "t3 - t2 < 60" "t4 - t1 < 60" "t4 - t2 < 60"
    "t4 - t3 < 60"
    using assms(2-5) by linarith+
  have out_window: "\<not> t5 - t1 < 60" "\<not> t5 - t2 < 60" "\<not> t5 - t3 < 60"
    using assms(2-4,6) by linarith+
  have s1: "is_allowed requests t1 key 3 60 = (True, requests(key \<mapsto> [t1]))"
    by (simp add: is_allowed_def assms(1))
  have s2: "is_allowed (requests(key \<mapsto> [t1])) t2 key 3 60 = (True, requests(key \<mapsto> [t1, t2]))"
    by (simp add: is_allowed_def in_window)
  have s3: "is_allowed (requests(key \<mapsto> [t1, t2])) t3 key 3 60
              = (True, requests(key \<mapsto> [t1, t2, t3]))"
    by (simp add: is_allowed_def in_window)
  have s4: "is_allowed (requests(key \<mapsto> [t1, t2, t3])) t4 key 3 60
              = (False, requests(key \<mapsto> [t1, t2, t3]))"
    by (simp add: is_allowed_def in_window)
  have s5: "is_allowed (requests(key \<mapsto> [t1, t2, t3])) t5 key 3 60
              = (True, requests(key \<mapsto> [t5]))"
    by (simp add: is_allowed_def out_window)
  show ?thesis by (simp add: s1 s2 s3 s4 s5)
qed

text \<open>
  Claim C4, as the code has it. \<^verbatim>\<open>is_allowed\<close> keeps the key's recorded times \<open>t\<close> with
  \<open>now - t < window\<close>, so it discards those whose age is the window or more; it returns
  true and records the current time if and only if fewer than \<open>limit\<close> times remain, and
  on rejection it stores the pruned times only. With limit 3 and window 60, four calls on a
  fresh key within less than 60 seconds return true, true, true, false, and a call more
  than 60 seconds after them returns true.
\<close>

theorem is_allowed_sliding_window:
  "fst (is_allowed requests now key limit window)
     = (int (length (filter (\<lambda>t. now - t < real_of_int window)
                       (case requests key of None \<Rightarrow> [] | Some ts \<Rightarrow> ts))) < limit)
   \<and> snd (is_allowed requests now key limit window)
     = requests(key \<mapsto>
         (if fst (is_allowed requests now key limit window)
          then filter (\<lambda>t. now - t < real_of_int window)
                 (case requests key of None \<Rightarrow> [] | Some ts \<Rightarrow> ts) @ [now]
          else filter (\<lambda>t. now - t < real_of_int window)
                 (case requests key of None \<Rightarrow> [] | Some ts \<Rightarrow> ts)))
   \<and> (requests key = None \<and> t1 \<le> t2 \<and> t2 \<le> t3 \<and> t3 \<le> t4 \<and> t4 - t1 < 60 \<and> t5 - t4 > 60
        \<longrightarrow> allowed_seq requests key 3 60 [t1, t2, t3, t4, t5] = [True, True, True, False, True])"
proof (intro conjI impI)
  show "fst (is_allowed requests now key limit window)
     = (int (length (filter (\<lambda>t. now - t < real_of_int window)
                       (case requests key of None \<Rightarrow> [] | Some ts \<Rightarrow> ts))) < limit)"
    by (simp add: is_allowed_eq Let_def)
  show "snd (is_allowed requests now key limit window)
     = requests(key \<mapsto>
         (if fst (is_allowed requests now key limit window)
          then filter (\<lambda>t. now - t < real_of_int window)
                 (case requests key of None \<Rightarrow> [] | Some ts \<Rightarrow> ts) @ [now]
          else filter (\<lambda>t. now - t < real_of_int window)
                 (case requests key of None \<Rightarrow> [] | Some ts \<Rightarrow> ts)))"
    by (simp add: is_allowed_eq Let_def)
  assume "requests key = None \<and> t1 \<le> t2 \<and> t2 \<le> t3 \<and> t3 \<le> t4 \<and> t4 - t1 < 60 \<and> t5 - t4 > 60"
  then show "allowed_seq requests key 3 60 [t1, t2, t3, t4, t5] = [True, True, True, False, True]"
    by (intro four_then_one) simp_all
qed

theorem is_allowed_sliding_window_witness:
  "(Map.empty :: rate_limiter) ''10.0.0.1:complete_code'' = None
   \<and> (100::real) \<le> 100.1 \<and> (100.1::real) \<le> 100.2 \<and> (100.2::real) \<le> 100.3
   \<and> (100.3::real) - 100 < 60 \<and> (161::real) - 100.3 > 60
   \<and> allowed_seq Map.empty ''10.0.0.1:complete_code'' 3 60 [100, 100.1, 100.2, 100.3, 161]
       = [True, True, True, False, True]"
  using is_allowed_sliding_window [of Map.empty _ "''10.0.0.1:complete_code''" _ _ 100
      "100.1" "100.2" "100.3" 161]
  by simp

text \<open>
  A recorded time whose age is exactly the window is not older than the window, yet the
  code discards it: with limit 1 the call is admitted where the wording keeps the time and
  rejects.
\<close>

theorem is_allowed_boundary_counterexample:
  "\<not> (60 - 0 > real_of_int 60)
   \<and> fst (spec_is_allowed (Map.empty(''k'' \<mapsto> [0])) 60 ''k'' 1 60) = False
   \<and> fst (is_allowed (Map.empty(''k'' \<mapsto> [0])) 60 ''k'' 1 60) = True"
  by (simp add: is_allowed_def spec_is_allowed_def)

section \<open>API keys\<close>

lemma split_on_append_sep: "split_on sep (a @ sep # b) = split_on sep a @ split_on sep b"
proof (induction a)
  case Nil
  show ?case by simp
next
  case (Cons x a)
  obtain p ps where "split_on sep a = p # ps"
    using split_on_nonempty [of sep a] by (cases "split_on sep a") auto
  with Cons show ?case by simp
qed

lemma length_split_on: "length (split_on sep s) = Suc (length (filter (\<lambda>c. c = sep) s))"
  by (induction s) (auto split: list.splits simp: split_on_nonempty)

lemma generated_key_parts:
  "length (split_on CHR ''.'' (generate_api_key L self now uid))
     = 3 + length (filter (\<lambda>c. c = CHR ''.'') uid)
         + length (filter (\<lambda>c. c = CHR ''.'') (str_int now))
         + length (filter (\<lambda>c. c = CHR ''.'')
             (hmac_sha256_hexdigest L (secret_key self) (uid @ '':'' @ str_int now)))"
  by (simp add: generate_api_key_def Let_def length_split_on)

lemma dotted_identity_rejected:
  assumes "CHR ''.'' \<in> set uid"
  shows "verify_api_key_try L self now' (generate_api_key L self now uid)
           = Inl (ValueError ''Invalid API key format'')"
proof -
  have "filter (\<lambda>c. c = CHR ''.'') uid \<noteq> []"
    using assms by (simp add: filter_empty_conv)
  then have "length (filter (\<lambda>c. c = CHR ''.'') uid) > 0"
    by simp
  then have "length (split_on CHR ''.'' (generate_api_key L self now uid)) \<noteq> 3"
    unfolding generated_key_parts by linarith
  then show ?thesis
    by (simp add: verify_api_key_try_def Let_def)
qed

text \<open>
  Printing a whole number and reading it back: \<^verbatim>\<open>int(str(n)) == n\<close>, and the printed
  text contains no dot.
\<close>

lemma digit_char_cases:
  assumes "d < 10"
  shows "digit_val (digit_char d) = Some d \<and> \<not> is_space (digit_char d)
         \<and> digit_char d \<noteq> CHR ''.'' \<and> digit_char d \<noteq> CHR ''-'' \<and> digit_char d \<noteq> CHR ''+''"
proof -
  from assms have "d \<in> {0, 1, 2, 3, 4, 5, 6, 7, 8, 9}"
    by auto
  then show ?thesis
    by (auto simp add: digit_char_def digit_val_def is_space_def)
qed

lemma str_nat_unfold:
  "str_nat n = (if n < 10 then [digit_char n] else str_nat (n div 10) @ [digit_char (n mod 10)])"
  by (rule str_nat.simps)

lemma str_nat_digits:
  "str_nat n \<noteq> [] \<and> (\<forall>c \<in> set (str_nat n). \<exists>d < 10. c = digit_char d)"
proof (induction n rule: str_nat.induct)
  case (1 n)
  show ?case
  proof (cases "n < 10")
    case True
    then have e: "str_nat n = [digit_char n]" by (subst str_nat_unfold) simp
    show ?thesis unfolding e using True by auto
  next
    case False
    then have e: "str_nat n = str_nat (n div 10) @ [digit_char (n mod 10)]"
      by (subst str_nat_unfold) simp
    have m: "\<exists>d < 10. digit_char (n mod 10) = digit_char d"
      by (rule exI [of _ "n mod 10"]) simp
    have ih: "\<forall>c \<in> set (str_nat (n div 10)). \<exists>d < 10. c = digit_char d"
      using 1 False by simp
    show ?thesis unfolding e using m ih by auto
  qed
qed

lemma digits_from_digits:
  "\<forall>c \<in> set ds. \<exists>d < 10. c = digit_char d \<Longrightarrow>
   digits_from ds acc = Some (foldl (\<lambda>a c. 10 * a + the (digit_val c)) acc ds)"
proof (induction ds arbitrary: acc)
  case Nil
  show ?case by simp
next
  case (Cons c ds)
  then obtain d where "d < 10" "c = digit_char d" by auto
  then have dv: "digit_val c = Some d" using digit_char_cases by simp
  have "digits_from ds (10 * acc + d)
          = Some (foldl (\<lambda>a c. 10 * a + the (digit_val c)) (10 * acc + d) ds)"
    using Cons.prems by (intro Cons.IH) simp
  then show ?case by (simp add: dv)
qed

lemma foldl_str_nat: "foldl (\<lambda>a c. 10 * a + the (digit_val c)) 0 (str_nat n) = n"
proof (induction n rule: str_nat.induct)
  case (1 n)
  show ?case
  proof (cases "n < 10")
    case True
    then have e: "str_nat n = [digit_char n]" by (subst str_nat_unfold) simp
    show ?thesis unfolding e using True by (simp add: digit_char_cases)
  next
    case False
    then have e: "str_nat n = str_nat (n div 10) @ [digit_char (n mod 10)]"
      by (subst str_nat_unfold) simp
    have "n mod 10 < 10" by simp
    then have v: "the (digit_val (digit_char (n mod 10))) = n mod 10"
      by (simp add: digit_char_cases)
    have ih: "foldl (\<lambda>a c. 10 * a + the (digit_val c)) 0 (str_nat (n div 10)) = n div 10"
      using 1 False by simp
    show ?thesis unfolding e by (simp add: ih v)
  qed
qed

lemma parse_nat_str_nat: "parse_nat (str_nat n) = Some n"
proof -
  obtain c cs where s: "str_nat n = c # cs"
    using str_nat_digits [of n] by (cases "str_nat n") auto
  have all: "\<forall>c \<in> set cs. \<exists>d < 10. c = digit_char d"
    using str_nat_digits [of n] unfolding s by simp
  obtain d where d: "d < 10" "c = digit_char d"
    using str_nat_digits [of n] unfolding s by auto
  have dv: "digit_val c = Some d" using d digit_char_cases by simp
  have "digits_from cs d = Some (foldl (\<lambda>a c. 10 * a + the (digit_val c)) d cs)"
    using all by (rule digits_from_digits)
  also have "foldl (\<lambda>a c. 10 * a + the (digit_val c)) d cs
           = foldl (\<lambda>a c. 10 * a + the (digit_val c)) 0 (c # cs)"
    by (simp add: dv)
  also have "\<dots> = n"
    using foldl_str_nat [of n] unfolding s .
  finally show ?thesis by (simp add: parse_nat_def s dv)
qed

lemma dropWhile_hd: "xs \<noteq> [] \<Longrightarrow> \<not> P (hd xs) \<Longrightarrow> dropWhile P xs = xs"
  by (cases xs) auto

lemma split_on_no_sep: "sep \<notin> set s \<Longrightarrow> split_on sep s = [s]"
  by (induction s) auto

lemma str_nat_plain:
  assumes "c \<in> set (str_nat n)"
  shows "\<not> is_space c \<and> c \<noteq> CHR ''.''"
proof -
  from assms obtain d where "d < 10" and "c = digit_char d"
    using str_nat_digits [of n] by auto
  then show ?thesis
    using digit_char_cases [of d] by simp
qed

lemma str_int_no_dot: "CHR ''.'' \<notin> set (str_int i)"
proof
  assume "CHR ''.'' \<in> set (str_int i)"
  then have "CHR ''.'' \<in> set (str_nat (nat (- i))) \<or> CHR ''.'' \<in> set (str_nat (nat i))"
    by (simp add: str_int_def split: if_splits)
  then show False
    using str_nat_plain by auto
qed

lemma length_str_nat: "0 < k \<Longrightarrow> n < 10 ^ k \<Longrightarrow> length (str_nat n) \<le> k"
proof (induction k arbitrary: n)
  case 0
  then show ?case by simp
next
  case (Suc k)
  show ?case
  proof (cases "n < 10")
    case True
    then have e: "str_nat n = [digit_char n]" by (subst str_nat_unfold) simp
    show ?thesis unfolding e by simp
  next
    case False
    then have e: "str_nat n = str_nat (n div 10) @ [digit_char (n mod 10)]"
      by (subst str_nat_unfold) simp
    have k: "0 < k"
    proof (rule ccontr)
      assume "\<not> 0 < k"
      then have "k = 0" by simp
      with Suc.prems(2) False show False by simp
    qed
    have "n div 10 < 10 ^ k"
      using Suc.prems(2) by (simp add: less_mult_imp_div_less mult.commute)
    then have "length (str_nat (n div 10)) \<le> k"
      using k by (intro Suc.IH)
    then show ?thesis unfolding e by simp
  qed
qed

lemma int_strip_plain:
  assumes "s \<noteq> []" and "\<not> is_int_space (hd s)" and "\<not> is_int_space (last s)"
  shows "int_strip s = s"
proof -
  have 1: "dropWhile is_int_space s = s"
    using assms(1,2) by (rule dropWhile_hd)
  have "rev s \<noteq> []" and "\<not> is_int_space (hd (rev s))"
    using assms(1,3) by (simp_all add: hd_rev)
  then have 2: "dropWhile is_int_space (rev s) = rev s"
    by (rule dropWhile_hd)
  show ?thesis by (simp add: int_strip_def 1 2)
qed

lemma is_int_space_is_space: "is_int_space c \<Longrightarrow> is_space c"
  by (auto simp add: is_int_space_def is_space_def)

lemma py_int_digits:
  assumes "length (str_nat n) \<le> int_max_str_digits"
  shows "py_int (str_nat n) = Some (int n) \<and> py_int (CHR ''-'' # str_nat n) = Some (- int n)"
proof -
  define ds where "ds = str_nat n"
  obtain c cs where s: "ds = c # cs"
    using str_nat_digits [of n] unfolding ds_def by (cases "str_nat n") auto
  have c_in: "c \<in> set (str_nat n)" and last_in: "last ds \<in> set (str_nat n)"
    using s unfolding ds_def [symmetric] by simp_all
  obtain d where d: "d < 10" "c = digit_char d"
    using str_nat_digits [of n] c_in by auto
  have c_plain: "c \<noteq> CHR ''-''" "c \<noteq> CHR ''+''"
    using d digit_char_cases [of d] by simp_all
  have last_ok: "\<not> is_int_space (last ds)"
    using str_nat_plain [OF last_in] is_int_space_is_space by blast
  have hd_ok: "\<not> is_int_space c"
    using str_nat_plain [OF c_in] is_int_space_is_space by blast
  have p: "parse_nat ds = Some n"
    unfolding ds_def by (rule parse_nat_str_nat)
  have "length (filter is_digit ds) \<le> length ds"
    by (rule length_filter_le)
  moreover have "length ds \<le> int_max_str_digits"
    using assms unfolding ds_def .
  ultimately have few: "\<not> length (filter is_digit ds) > int_max_str_digits"
    by linarith
  have "int_strip (CHR ''-'' # ds) = CHR ''-'' # ds"
  proof (rule int_strip_plain)
    show "CHR ''-'' # ds \<noteq> []" by simp
    show "\<not> is_int_space (hd (CHR ''-'' # ds))" by (simp add: is_int_space_def)
    have "last (CHR ''-'' # ds) = last ds" unfolding s by simp
    then show "\<not> is_int_space (last (CHR ''-'' # ds))" using last_ok by simp
  qed
  then have neg: "py_int (CHR ''-'' # ds) = Some (- int n)"
    unfolding py_int_def using few by (simp add: p)
  have "int_strip ds = ds"
  proof (rule int_strip_plain)
    show "ds \<noteq> []" unfolding s by simp
    show "\<not> is_int_space (hd ds)" unfolding s using hd_ok by simp
    show "\<not> is_int_space (last ds)" by (rule last_ok)
  qed
  then have st: "int_strip ds = c # cs"
    unfolding s .
  have few': "\<not> length (filter is_digit (c # cs)) > int_max_str_digits"
    using few unfolding s .
  have "py_int ds = map_option int (parse_nat (c # cs))"
    unfolding py_int_def st using c_plain few' by (simp add: Let_def)
  then have "py_int ds = map_option int (parse_nat ds)"
    unfolding s .
  then have pos: "py_int ds = Some (int n)"
    by (simp add: p)
  show ?thesis
    using pos neg unfolding ds_def by simp
qed

lemma py_int_str_int:
  assumes "\<bar>i\<bar> < 10 ^ int_max_str_digits"
  shows "py_int (str_int i) = Some i"
proof -
  define k where "k = int_max_str_digits"
  have k: "0 < k"
    by (simp add: k_def int_max_str_digits_def)
  have "\<bar>i\<bar> < int (10 ^ k)"
    using assms unfolding k_def by simp
  then have "nat \<bar>i\<bar> < 10 ^ k"
    by (simp only: nat_less_iff abs_ge_zero)
  with k have "length (str_nat (nat \<bar>i\<bar>)) \<le> k"
    by (rule length_str_nat)
  then have len: "length (str_nat (nat \<bar>i\<bar>)) \<le> int_max_str_digits"
    unfolding k_def .
  show ?thesis
  proof (cases "i < 0")
    case True
    then have "nat \<bar>i\<bar> = nat (- i)" by simp
    with len have "length (str_nat (nat (- i))) \<le> int_max_str_digits" by simp
    from py_int_digits [OF this] True show ?thesis
      by (simp add: str_int_def)
  next
    case False
    then have "nat \<bar>i\<bar> = nat i" by simp
    with len have "length (str_nat (nat i)) \<le> int_max_str_digits" by simp
    from py_int_digits [OF this] False show ?thesis
      by (simp add: str_int_def)
  qed
qed


text \<open>
  For an identity without a dot, a clock reading of at most 4300 digits and a signature
  made of hexadecimal digits as \<^verbatim>\<open>hexdigest\<close> returns it, issuing and verifying are a
  round trip: the body of
  \<^verbatim>\<open>verify_api_key\<close> returns the identity while the clock has advanced by at most 86400
  seconds since issuance, and raises \<^verbatim>\<open>ValueError("API key expired")\<close> afterwards.
\<close>

lemma api_key_round_trip:
  assumes "CHR ''.'' \<notin> set uid"
    and "\<bar>now\<bar> < 10 ^ int_max_str_digits"
    and "\<forall>c \<in> set (hmac_sha256_hexdigest L (secret_key self) (uid @ '':'' @ str_int now)).
           c \<in> set ''0123456789abcdef''"
  shows "verify_api_key_try L self now' (generate_api_key L self now uid)
           = (if now' - now > 86400 then Inl (ValueError ''API key expired'')
              else Inr \<lparr> key_user_id = uid, key_timestamp = str_int now \<rparr>)"
proof -
  define ts where "ts = str_int now"
  define sg where "sg = hmac_sha256_hexdigest L (secret_key self) (uid @ '':'' @ ts)"
  have hex: "c \<noteq> CHR ''.'' \<and> \<not> digit7 c" if "c \<in> set sg" for c
  proof -
    from that assms(3) have "c \<in> set ''0123456789abcdef''"
      unfolding sg_def ts_def by blast
    then show ?thesis by auto
  qed
  have nodot: "CHR ''.'' \<notin> set sg"
    using hex by blast
  have ts_nodot: "CHR ''.'' \<notin> set ts"
    unfolding ts_def by (rule str_int_no_dot)
  have key: "generate_api_key L self now uid = uid @ CHR ''.'' # (ts @ CHR ''.'' # sg)"
    by (simp add: generate_api_key_def Let_def sg_def ts_def)
  have parts: "split_on CHR ''.'' (generate_api_key L self now uid) = [uid, ts, sg]"
    unfolding key split_on_append_sep
    by (simp add: split_on_no_sep [OF assms(1)] split_on_no_sep [OF ts_nodot]
        split_on_no_sep [OF nodot])
  have ascii: "\<forall>c \<in> set (sg @ sg). \<not> digit7 c"
    using hex by simp
  have cmp: "compare_digest sg sg = Inr True"
    unfolding compare_digest_def using ascii by simp
  have expected: "hmac_sha256_hexdigest L (secret_key self) (uid @ '':'' @ ts) = sg"
    by (simp add: sg_def)
  have parse: "py_int ts = Some now"
    unfolding ts_def using assms(2) by (rule py_int_str_int)
  have "verify_api_key_try L self now' (generate_api_key L self now uid)
           = (if now' - now > 86400 then Inl (ValueError ''API key expired'')
              else Inr \<lparr> key_user_id = uid, key_timestamp = ts \<rparr>)"
    unfolding verify_api_key_try_def Let_def parts
    by (simp add: expected [simplified] cmp parse)
  then show ?thesis
    unfolding ts_def .
qed

text \<open>
  Claim C6 at an identity that contains a dot. The key issued for \<^verbatim>\<open>john.doe\<close> splits
  into four parts at the dots, so verifying it at the moment of issuance, under the same
  secret, fails with the 401 error instead of returning the identity.
\<close>

theorem dotted_identity_key_rejected:
  "verify_api_key L self now (generate_api_key L self now ''john.doe'')
     = Inl (HTTPException 401 ''Invalid API key'')"
  by (simp add: verify_api_key_def dotted_identity_rejected)

text \<open>
  Claim C10, as the code has it. A key of three dot-separated parts whose signature passes
  the digest comparison and whose timestamp \<^verbatim>\<open>int\<close> reads, as a time later than the
  clock, is accepted: verification returns the embedded identity and timestamp. Only an age
  above 86400 is rejected, and the age of such a key is negative. A timestamp that
  \<^verbatim>\<open>int\<close> refuses, one of more than 4300 digits among them, makes the key invalid
  however large the number it writes.
\<close>

theorem future_timestamp_accepted:
  assumes "split_on CHR ''.'' api_key = [uid, timestamp, signature]"
    and "compare_digest signature
           (hmac_sha256_hexdigest L (secret_key self) (uid @ '':'' @ timestamp)) = Inr True"
    and "py_int timestamp = Some t"
    and "now < t"
  shows "verify_api_key L self now api_key
           = Inr \<lparr> key_user_id = uid, key_timestamp = timestamp \<rparr>"
  using assms by (simp add: verify_api_key_def verify_api_key_try_def Let_def)

lemma py_int_example: "py_int ''4102444800'' = Some 4102444800"
  by (simp add: py_int_def int_strip_def is_int_space_def parse_nat_def digit_val_def
      int_max_str_digits_def is_digit_def)

theorem future_timestamp_accepted_witness:
  "split_on CHR ''.''
     ''alice.4102444800.fc53a05344db9c8f201dd8dea20baf8bbef5a44158076272134afc8cdd92ce86''
     = [''alice'', ''4102444800'',
        ''fc53a05344db9c8f201dd8dea20baf8bbef5a44158076272134afc8cdd92ce86'']
   \<and> compare_digest ''fc53a05344db9c8f201dd8dea20baf8bbef5a44158076272134afc8cdd92ce86''
        (hmac_sha256_hexdigest sample_library (secret_key \<lparr> secret_key = ''test-secret'' \<rparr>)
           (''alice'' @ '':'' @ ''4102444800'')) = Inr True
   \<and> py_int ''4102444800'' = Some 4102444800
   \<and> (1700000000::int) < 4102444800
   \<and> verify_api_key sample_library \<lparr> secret_key = ''test-secret'' \<rparr> 1700000000
        ''alice.4102444800.fc53a05344db9c8f201dd8dea20baf8bbef5a44158076272134afc8cdd92ce86''
      = Inr \<lparr> key_user_id = ''alice'', key_timestamp = ''4102444800'' \<rparr>"
proof -
  have parts: "split_on CHR ''.''
     ''alice.4102444800.fc53a05344db9c8f201dd8dea20baf8bbef5a44158076272134afc8cdd92ce86''
     = [''alice'', ''4102444800'',
        ''fc53a05344db9c8f201dd8dea20baf8bbef5a44158076272134afc8cdd92ce86'']"
    by simp
  have sig: "compare_digest ''fc53a05344db9c8f201dd8dea20baf8bbef5a44158076272134afc8cdd92ce86''
        (hmac_sha256_hexdigest sample_library (secret_key \<lparr> secret_key = ''test-secret'' \<rparr>)
           (''alice'' @ '':'' @ ''4102444800'')) = Inr True"
    by (simp add: compare_digest_def sample_library_def)
  have later: "(1700000000::int) < 4102444800"
    by simp
  from future_timestamp_accepted [OF parts sig py_int_example later] parts sig py_int_example later
  show ?thesis by blast
qed

text \<open>
  A timestamp of 4301 digits writes a time far after the clock, and the key carries the
  signature the secret gives for it; \<^verbatim>\<open>int\<close> refuses the text and verification fails
  with the 401 error.
\<close>

lemma digits_from_zeros:
  "digits_from (replicate n (CHR ''0'')) acc = Some (acc * 10 ^ n)"
proof (induction n arbitrary: acc)
  case 0
  show ?case by simp
next
  case (Suc n)
  have "digit_val (CHR ''0'') = Some 0"
    by (simp add: digit_val_def)
  then show ?case
    using Suc [of "10 * acc"] by (simp add: mult.assoc mult.left_commute)
qed

lemma parse_nat_one_zeros:
  "parse_nat (CHR ''1'' # replicate n (CHR ''0'')) = Some (10 ^ n)"
proof -
  have "digit_val (CHR ''1'') = Some 1"
    by (simp add: digit_val_def)
  then show ?thesis
    using digits_from_zeros [of n 1] by (simp add: parse_nat_def)
qed

lemma py_int_one_zeros:
  "py_int (CHR ''1'' # replicate n (CHR ''0''))
     = (if n < int_max_str_digits then Some (10 ^ n) else None)"
proof -
  define ts where "ts = CHR ''1'' # replicate n (CHR ''0'')"
  have last_ts: "last ts = CHR ''1'' \<or> last ts = CHR ''0''"
    unfolding ts_def by (cases n) simp_all
  have "int_strip ts = ts"
  proof (rule int_strip_plain)
    show "ts \<noteq> []" by (simp add: ts_def)
    show "\<not> is_int_space (hd ts)" by (simp add: ts_def is_int_space_def)
    show "\<not> is_int_space (last ts)" using last_ts by (auto simp add: is_int_space_def)
  qed
  then have st: "int_strip ts = CHR ''1'' # replicate n (CHR ''0'')"
    unfolding ts_def .
  have d0: "is_digit (CHR ''0'')" and d1: "is_digit (CHR ''1'')"
    by (simp_all add: is_digit_def digit_val_def)
  have fz: "filter is_digit (replicate n (CHR ''0'')) = replicate n (CHR ''0'')"
    using d0 by (simp add: filter_id_conv)
  have "py_int ts = (if n < int_max_str_digits then Some (10 ^ n) else None)"
    unfolding py_int_def st
    by (simp add: Let_def d1 fz parse_nat_one_zeros)
  then show ?thesis
    unfolding ts_def .
qed

lemma verify_rejects_unread_timestamp:
  assumes "split_on CHR ''.'' api_key = [uid, timestamp, signature]"
    and "py_int timestamp = None"
  shows "verify_api_key L self now api_key = Inl (HTTPException 401 ''Invalid API key'')"
proof (cases "compare_digest signature
                (hmac_sha256_hexdigest L (secret_key self) (uid @ '':'' @ timestamp))")
  case (Inl err)
  then show ?thesis
    using assms by (simp add: verify_api_key_def verify_api_key_try_def Let_def)
next
  case (Inr same)
  then show ?thesis
    using assms by (simp add: verify_api_key_def verify_api_key_try_def Let_def)
qed

lemma long_timestamp_facts:
  "CHR ''.'' \<notin> set long_timestamp" "length long_timestamp = 4301"
  "\<forall>c \<in> set long_timestamp. \<not> digit7 c"
  by (auto simp add: long_timestamp_def)

lemma long_timestamp_other: "long_timestamp \<noteq> ''4102444800''"
proof
  assume "long_timestamp = ''4102444800''"
  then have "length long_timestamp = length ''4102444800''" by (rule arg_cong)
  then show False by (simp add: long_timestamp_facts(2))
qed

theorem future_timestamp_digit_limit_counterexample:
  "split_on CHR ''.''
     (''alice.'' @ long_timestamp
        @ ''.60b36fb397dff5221af66163c3275572c45e06b0997fa1542eb001f44e114082'')
     = [''alice'', long_timestamp,
        ''60b36fb397dff5221af66163c3275572c45e06b0997fa1542eb001f44e114082'']
   \<and> compare_digest ''60b36fb397dff5221af66163c3275572c45e06b0997fa1542eb001f44e114082''
        (hmac_sha256_hexdigest sample_library (secret_key \<lparr> secret_key = ''test-secret'' \<rparr>)
           (''alice'' @ '':'' @ long_timestamp)) = Inr True
   \<and> parse_nat long_timestamp = Some (10 ^ 4300)
   \<and> (1700000000 :: nat) < 10 ^ 4300
   \<and> py_int long_timestamp = None
   \<and> verify_api_key sample_library \<lparr> secret_key = ''test-secret'' \<rparr> 1700000000
        (''alice.'' @ long_timestamp
           @ ''.60b36fb397dff5221af66163c3275572c45e06b0997fa1542eb001f44e114082'')
      = Inl (HTTPException 401 ''Invalid API key'')"
proof -
  define sg where "sg = ''60b36fb397dff5221af66163c3275572c45e06b0997fa1542eb001f44e114082''"
  have sg_plain: "CHR ''.'' \<notin> set sg" "\<forall>c \<in> set sg. \<not> digit7 c"
    by (simp_all add: sg_def)
  have key: "''alice.'' @ long_timestamp @ CHR ''.'' # sg
               = ''alice'' @ CHR ''.'' # (long_timestamp @ CHR ''.'' # sg)"
    by simp
  have parts: "split_on CHR ''.'' (''alice.'' @ long_timestamp @ CHR ''.'' # sg)
                 = [''alice'', long_timestamp, sg]"
    unfolding key split_on_append_sep
    by (simp add: split_on_no_sep [OF long_timestamp_facts(1)] split_on_no_sep [OF sg_plain(1)])
  have mac: "hmac_sha256_hexdigest sample_library (secret_key \<lparr> secret_key = ''test-secret'' \<rparr>)
               (''alice'' @ '':'' @ long_timestamp) = sg"
    by (simp add: sample_library_def long_timestamp_other sg_def)
  have cmp: "compare_digest sg
               (hmac_sha256_hexdigest sample_library (secret_key \<lparr> secret_key = ''test-secret'' \<rparr>)
                  (''alice'' @ '':'' @ long_timestamp)) = Inr True"
    unfolding mac compare_digest_def using sg_plain(2) by simp
  have value_of: "parse_nat long_timestamp = Some (10 ^ 4300)"
    unfolding long_timestamp_def by (rule parse_nat_one_zeros)
  have "(1700000000 :: nat) < 10 ^ 10"
    by simp
  moreover have "(10 :: nat) ^ 10 \<le> 10 ^ 4300"
    by (rule power_increasing) simp_all
  ultimately have later: "(1700000000 :: nat) < 10 ^ 4300"
    by (rule less_le_trans)
  have "\<not> (4300 :: nat) < int_max_str_digits"
    by (simp add: int_max_str_digits_def)
  then have unread: "py_int long_timestamp = None"
    unfolding long_timestamp_def py_int_one_zeros by (rule if_not_P)
  have rejected: "verify_api_key sample_library \<lparr> secret_key = ''test-secret'' \<rparr> 1700000000
        (''alice.'' @ long_timestamp @ CHR ''.'' # sg) = Inl (HTTPException 401 ''Invalid API key'')"
    using parts unread by (rule verify_rejects_unread_timestamp)
  have shape: "''alice.'' @ long_timestamp @ ''.'' @ sg = ''alice.'' @ long_timestamp @ CHR ''.'' # sg"
    by simp
  show ?thesis
    using parts cmp value_of later unread rejected
    unfolding sg_def [symmetric] shape by blast
qed

section \<open>Concurrent calls\<close>

lemma get_completion_split:
  "get_completion L svc e request =
     (case lookup L svc request of
        Some cached_result \<Rightarrow> \<lparr> response = cached_result, service_after = svc, invoked = [] \<rparr>
      | None \<Rightarrow> resume L svc e request)"
  by (simp add: get_completion_def lookup_def resume_def Let_def split: option.splits)











end
